theory Spec2Isabelle
  imports Main "HOL-Library.Sublist"
begin

section \<open>Go values: errors and formatting\<close>

text \<open>
  A Go \<^verbatim>\<open>error\<close> is either \<^verbatim>\<open>nil\<close> or a value with a message. A possibly-nil
  error is an \<open>error option\<close> (\<open>None\<close> is \<^verbatim>\<open>nil\<close>); a Go result pair
  \<^verbatim>\<open>(T, error)\<close> is the sum \<open>error + T\<close>. The two ways main.go builds errors are
  \<^verbatim>\<open>errors.Errorf\<close> (a fresh error) and \<^verbatim>\<open>errors.Wrapf\<close> of github.com/pkg/errors,
  which annotates a cause with a message and, as its documentation says, returns
  \<^verbatim>\<open>nil\<close> when the cause is \<^verbatim>\<open>nil\<close>.
\<close>

datatype error = New string | WithMessage error string

fun Error :: "error \<Rightarrow> string" where
  "Error (New s) = s"
| "Error (WithMessage cause msg) = msg @ '': '' @ Error cause"

definition Errorf :: "string \<Rightarrow> error" where
  "Errorf msg = New msg"

definition Wrapf :: "error option \<Rightarrow> string \<Rightarrow> error option" where
  "Wrapf err msg = (case err of None \<Rightarrow> None | Some e \<Rightarrow> Some (WithMessage e msg))"

text \<open>The verb \<^verbatim>\<open>%d\<close> of the format strings: a decimal numeral.\<close>

fun utoa :: "nat \<Rightarrow> string" where
  "utoa n = (if n < 10 then [''0123456789'' ! n]
             else utoa (n div 10) @ [''0123456789'' ! (n mod 10)])"

definition Itoa :: "int \<Rightarrow> string" where
  "Itoa i = (if i < 0 then ''-'' @ utoa (nat (- i)) else utoa (nat i))"

section \<open>Data model\<close>

text \<open>
  \<^verbatim>\<open>page\<close> wraps a reader over the fetched bytes. The catalogue types are the ones of
  the API (\<^verbatim>\<open>Magazine\<close>, \<^verbatim>\<open>IssueMetadata\<close>, \<^verbatim>\<open>Issue\<close>, \<^verbatim>\<open>Session\<close>); main.go only
  reads their fields.
\<close>

datatype page = Page string

record Session =
  session_login :: string
  session_password :: string
  session_profileID :: string

record IssueMetadata =
  ID :: string
  Title :: string

record Magazine =
  ID :: string
  Title :: string
  Issues :: "IssueMetadata list"

record Issue =
  ID :: string
  Title :: string
  Password :: string
  PageCount :: int
  baseURL :: string

text \<open>
  A context carries \<^verbatim>\<open>ctx.Err()\<close> (\<open>None\<close> while it is live) and the tightest
  timeout set on it, in nanoseconds. Clock time is not modelled: whether a timeout
  expires during a request is part of the outcome the transport reports.
\<close>

datatype Context = Context (Err: "error option") (timeout: "nat option")

definition Background :: Context where
  "Background = Context None None"

definition time_Second :: nat where
  "time_Second = 1000000000"

definition WithTimeout :: "Context \<Rightarrow> nat \<Rightarrow> Context" where
  "WithTimeout parent d =
     Context (Err parent) (Some (case timeout parent of None \<Rightarrow> d | Some t \<Rightarrow> min t d))"

text \<open>
  An HTTP response: the status code and the body, a stream that yields its bytes and
  then either ends or fails. \<^verbatim>\<open>ioutil.ReadAll\<close> returns what was read and the error.
\<close>

datatype Body = Body string "error option"

record Response =
  StatusCode :: int
  ResponseBody :: Body

fun ioutil_ReadAll :: "Body \<Rightarrow> string \<times> error option" where
  "ioutil_ReadAll (Body b err) = (b, err)"

text \<open>
  A PDF page object with its annotation entry (\<open>None\<close> is \<^verbatim>\<open>nil\<close>) and the rest of
  its content, and the writer: the page objects added so far, in order.
\<close>

record PdfPage =
  Annots :: "string option"
  Contents :: string

record PdfWriter =
  pages :: "PdfPage list"

definition NewPdfWriter :: PdfWriter where
  "NewPdfWriter = \<lparr>pages = []\<rparr>"

section \<open>The world outside the program\<close>

text \<open>
  The state the program acts on: the file system (path to node), and the ghost
  traces that record what the program did, in order: every file-system state it
  produced, every page fetch with its outcome, every issue-metadata request, and the
  log lines it printed.
\<close>

datatype node = File string | Dir

datatype log_entry = Info string string string | LogError error

record world =
  files :: "string \<rightharpoonup> node"
  history :: "(string \<rightharpoonup> node) list"
  fetches :: "(string \<times> (error + page)) list"
  metadata_fetches :: "(string \<times> string) list"
  logged :: "log_entry list"

text \<open>
  What the program cannot decide is a parameter: the collaborators of the API
  (\<^verbatim>\<open>GetIssue\<close>, \<^verbatim>\<open>GetURL\<close>), the HTTP transport, the faults of the file system, the
  PDF library (reader type \<open>'r\<close>), and the two library string functions applied to
  titles and paths. Each may depend on everything that happened so far (the world).
  A fault is \<open>Some\<close> error. \<open>Stat_fault\<close> is asked only about a path that does not exist
  and may give an error other than "does not exist". \<open>Write_outcome\<close> tells what
  \<^verbatim>\<open>pdf.Write\<close> left in the file and what it returned, the two being independent: the
  library can return \<^verbatim>\<open>nil\<close> after a short write. \<open>serialize\<close> is the complete
  document, what a write that goes well leaves.
\<close>

record 'r env =
  sanitize :: "string \<Rightarrow> string"
  path_Join :: "string \<Rightarrow> string \<Rightarrow> string"
  GetIssue :: "world \<Rightarrow> Session \<Rightarrow> string \<Rightarrow> string \<Rightarrow> error + Issue"
  GetURL :: "Issue \<Rightarrow> int \<Rightarrow> error + string"
  transport :: "world \<Rightarrow> Context \<Rightarrow> string \<Rightarrow> error + Response"
  Stat_fault :: "world \<Rightarrow> string \<Rightarrow> error option"
  Mkdir_fault :: "world \<Rightarrow> string \<Rightarrow> error option"
  Create_fault :: "world \<Rightarrow> string \<Rightarrow> error option"
  Write_outcome :: "world \<Rightarrow> PdfWriter \<Rightarrow> string \<times> error option"
  Close_fault :: "world \<Rightarrow> string \<Rightarrow> error option"
  Rename_fault :: "world \<Rightarrow> string \<Rightarrow> string \<Rightarrow> error option"
  serialize :: "PdfWriter \<Rightarrow> string"
  NewPdfReader :: "page \<Rightarrow> error + 'r"
  Decrypt :: "'r \<Rightarrow> string \<Rightarrow> error + (bool \<times> 'r)"
  GetNumPages :: "'r \<Rightarrow> error + int"
  GetPageAsPdfPage :: "'r \<Rightarrow> int \<Rightarrow> error + PdfPage"
  AddPage_fault :: "PdfWriter \<Rightarrow> PdfPage \<Rightarrow> error option"

subsection \<open>File system and logger primitives\<close>

definition fs_update :: "((string \<rightharpoonup> node) \<Rightarrow> (string \<rightharpoonup> node)) \<Rightarrow> world \<Rightarrow> world" where
  "fs_update f w = w\<lparr>files := f (files w), history := history w @ [f (files w)]\<rparr>"

definition ErrNotExist :: error where
  "ErrNotExist = New ''file does not exist''"

text \<open>
  \<^verbatim>\<open>os.Stat\<close> succeeds on a path that exists; on one that does not it fails, with
  "does not exist" or with another error (a name too long, say).
\<close>

definition os_Stat :: "'r env \<Rightarrow> world \<Rightarrow> string \<Rightarrow> error option" where
  "os_Stat env w name =
     (if files w name = None then
        (case Stat_fault env w name of Some e \<Rightarrow> Some e | None \<Rightarrow> Some ErrNotExist)
      else None)"

definition os_IsNotExist :: "error option \<Rightarrow> bool" where
  "os_IsNotExist err = (err = Some ErrNotExist)"

definition os_Mkdir :: "'r env \<Rightarrow> string \<Rightarrow> world \<Rightarrow> error option \<times> world" where
  "os_Mkdir env name w =
     (case Mkdir_fault env w name of
        Some e \<Rightarrow> (Some e, w)
      | None \<Rightarrow> (None, fs_update (\<lambda>fs. fs(name \<mapsto> Dir)) w))"

text \<open>\<^verbatim>\<open>os.Create\<close> creates the file or truncates it.\<close>

definition os_Create :: "'r env \<Rightarrow> string \<Rightarrow> world \<Rightarrow> error option \<times> world" where
  "os_Create env name w =
     (case Create_fault env w name of
        Some e \<Rightarrow> (Some e, w)
      | None \<Rightarrow> (None, fs_update (\<lambda>fs. fs(name \<mapsto> File [])) w))"

text \<open>
  \<^verbatim>\<open>pdf.Write(file)\<close>: the file holds what the write left in it, and the call returns
  what the library returns.
\<close>

definition pdf_Write :: "'r env \<Rightarrow> PdfWriter \<Rightarrow> string \<Rightarrow> world \<Rightarrow> error option \<times> world" where
  "pdf_Write env pdf name w =
     (case Write_outcome env w pdf of
        (content, err) \<Rightarrow> (err, fs_update (\<lambda>fs. fs(name \<mapsto> File content)) w))"

definition file_Close :: "'r env \<Rightarrow> string \<Rightarrow> world \<Rightarrow> error option \<times> world" where
  "file_Close env name w = (Close_fault env w name, w)"

definition os_Rename :: "'r env \<Rightarrow> string \<Rightarrow> string \<Rightarrow> world \<Rightarrow> error option \<times> world" where
  "os_Rename env oldpath newpath w =
     (case Rename_fault env w oldpath newpath of
        Some e \<Rightarrow> (Some e, w)
      | None \<Rightarrow> (None, fs_update (\<lambda>fs. (fs(newpath := fs oldpath))(oldpath := None)) w))"

definition entry_Info :: "Magazine \<Rightarrow> IssueMetadata \<Rightarrow> string \<Rightarrow> world \<Rightarrow> world" where
  "entry_Info magazine metadata msg w =
     w\<lparr>logged := logged w @ [Info (Magazine.Title magazine) (IssueMetadata.Title metadata) msg]\<rparr>"

definition log_Error :: "error \<Rightarrow> world \<Rightarrow> world" where
  "log_Error err w = w\<lparr>logged := logged w @ [LogError err]\<rparr>"

subsection \<open>Network primitives\<close>

text \<open>
  \<^verbatim>\<open>ctxhttp.Get\<close> answers a context that is already done with the context's error,
  without a response; otherwise the transport decides.
\<close>

definition ctxhttp_Get :: "'r env \<Rightarrow> world \<Rightarrow> Context \<Rightarrow> string \<Rightarrow> error + Response" where
  "ctxhttp_Get env w ctx url =
     (case Err ctx of Some e \<Rightarrow> Inl e | None \<Rightarrow> transport env w ctx url)"

definition session_GetIssue ::
  "'r env \<Rightarrow> Session \<Rightarrow> string \<Rightarrow> string \<Rightarrow> world \<Rightarrow> (error + Issue) \<times> world" where
  "session_GetIssue env session magazine issue w =
     (GetIssue env w session magazine issue,
      w\<lparr>metadata_fetches := metadata_fetches w @ [(magazine, issue)]\<rparr>)"

section \<open>main.go\<close>

subsection \<open>downloadPage\<close>

definition downloadPage ::
  "'r env \<Rightarrow> Context \<Rightarrow> string \<Rightarrow> world \<Rightarrow> (error + page) \<times> world" where
  "downloadPage env ctx0 url w =
     (let ctx = WithTimeout ctx0 (30 * time_Second);
          r = (case ctxhttp_Get env w ctx url of
                 Inl err \<Rightarrow> Inl err
               | Inr resp \<Rightarrow>
                   (case ioutil_ReadAll (ResponseBody resp) of
                      (b, Some err) \<Rightarrow> Inl err
                    | (b, None) \<Rightarrow> Inr (Page b)))
      in (r, w\<lparr>fetches := fetches w @ [(url, r)]\<rparr>))"

subsection \<open>downloadAllPages\<close>

text \<open>The \<^verbatim>\<open>for\<close> loop, from index \<open>i\<close> with the pages appended so far.\<close>

function downloadAllPages_loop ::
  "'r env \<Rightarrow> Context \<Rightarrow> Issue \<Rightarrow> int \<Rightarrow> page list \<Rightarrow> world \<Rightarrow> (error + page list) \<times> world" where
  "downloadAllPages_loop env ctx issue i ps w =
     (if i < PageCount issue then
        (case GetURL env issue i of
           Inl err \<Rightarrow> (Inl err, w)
         | Inr url \<Rightarrow>
             (case downloadPage env ctx url w of
                (Inl err, w') \<Rightarrow>
                  (Inl (WithMessage err (''failed to download page '' @ Itoa i)), w')
              | (Inr p, w') \<Rightarrow> downloadAllPages_loop env ctx issue (i + 1) (ps @ [p]) w'))
      else (Inr ps, w))"
  by pat_completeness auto
termination
  by (relation "measure (\<lambda>(env, ctx, issue, i, ps, w). nat (PageCount issue - i))") auto

declare downloadAllPages_loop.simps [simp del]

definition downloadAllPages ::
  "'r env \<Rightarrow> Context \<Rightarrow> Issue \<Rightarrow> world \<Rightarrow> (error + page list) \<times> world" where
  "downloadAllPages env ctx issue w =
     (case downloadAllPages_loop env ctx issue 0 [] w of
        (Inl err, w') \<Rightarrow> (Inl err, w')
      | (Inr ps, w') \<Rightarrow>
          (Inr (if length ps > 0 then tl ps @ [hd ps] else ps), w'))"

subsection \<open>unlockAndMerge\<close>

definition AddPage :: "'r env \<Rightarrow> PdfWriter \<Rightarrow> PdfPage \<Rightarrow> error + PdfWriter" where
  "AddPage env w p =
     (case AddPage_fault env w p of
        Some e \<Rightarrow> Inl e
      | None \<Rightarrow> Inr (w\<lparr>pages := pages w @ [p]\<rparr>))"

text \<open>The inner loop over the sub-pages of one decrypted container.\<close>

function unlockAndMerge_subpages ::
  "'r env \<Rightarrow> 'r \<Rightarrow> int \<Rightarrow> int \<Rightarrow> PdfWriter \<Rightarrow> error + PdfWriter" where
  "unlockAndMerge_subpages env r numPages i w =
     (if i < numPages then
        (case GetPageAsPdfPage env r (i + 1) of
           Inl err \<Rightarrow> Inl err
         | Inr p \<Rightarrow>
             (case AddPage env w (p\<lparr>Annots := None\<rparr>) of
                Inl err \<Rightarrow> Inl err
              | Inr w' \<Rightarrow> unlockAndMerge_subpages env r numPages (i + 1) w'))
      else Inr w)"
  by pat_completeness auto
termination
  by (relation "measure (\<lambda>(env, r, numPages, i, w). nat (numPages - i))") auto

declare unlockAndMerge_subpages.simps [simp del]

text \<open>The outer loop over the page containers.\<close>

fun unlockAndMerge_loop ::
  "'r env \<Rightarrow> string \<Rightarrow> PdfWriter \<Rightarrow> page list \<Rightarrow> error + PdfWriter" where
  "unlockAndMerge_loop env password w [] = Inr w"
| "unlockAndMerge_loop env password w (p # rest) =
     (case NewPdfReader env p of
        Inl err \<Rightarrow> Inl err
      | Inr r \<Rightarrow>
          (case Decrypt env r password of
             Inl err \<Rightarrow> Inl err
           | Inr (ok, r') \<Rightarrow>
               if \<not> ok then
                 Inl (Errorf (''failed to decrypt pages using password '' @ password))
               else
                 (case GetNumPages env r' of
                    Inl err \<Rightarrow> Inl err
                  | Inr numPages \<Rightarrow>
                      (case unlockAndMerge_subpages env r' numPages 0 w of
                         Inl err \<Rightarrow> Inl err
                       | Inr w' \<Rightarrow> unlockAndMerge_loop env password w' rest))))"

definition unlockAndMerge :: "'r env \<Rightarrow> page list \<Rightarrow> string \<Rightarrow> error + PdfWriter" where
  "unlockAndMerge env ps password = unlockAndMerge_loop env password NewPdfWriter ps"

subsection \<open>save\<close>

definition save ::
  "'r env \<Rightarrow> Session \<Rightarrow> page list \<Rightarrow> string \<Rightarrow> string \<Rightarrow> world \<Rightarrow> error option \<times> world" where
  "save env session ps password path w =
     (case unlockAndMerge env ps password of
        Inl err \<Rightarrow>
          (Wrapf (Some err) (''failed to unlock and merge pages for '' @ path), w)
      | Inr pdf \<Rightarrow>
          (let temp = path @ ''.part'' in
           case os_Create env temp w of
             (Some err, w1) \<Rightarrow> (Wrapf (Some err) (''failed to create '' @ path), w1)
           | (None, w1) \<Rightarrow>
               (case pdf_Write env pdf temp w1 of
                  (err, w2) \<Rightarrow>
                    (case file_Close env temp w2 of
                       (cerr, w3) \<Rightarrow>
                         if err \<noteq> None \<or> cerr \<noteq> None then
                           (Wrapf err (''failed to save '' @ path), w3)
                         else
                           (case os_Rename env temp path w3 of
                              (rerr, w4) \<Rightarrow>
                                (Wrapf rerr (''failed to save '' @ path), w4))))))"

subsection \<open>downloadAllIssues\<close>

text \<open>The function literal that downloads and saves one issue.\<close>

definition downloadIssue ::
  "'r env \<Rightarrow> Context \<Rightarrow> Session \<Rightarrow> Magazine \<Rightarrow> IssueMetadata \<Rightarrow> string \<Rightarrow> world
     \<Rightarrow> error option \<times> world" where
  "downloadIssue env ctx session magazine metadata path w =
     (case session_GetIssue env session (Magazine.ID magazine) (IssueMetadata.ID metadata)
             (entry_Info magazine metadata ''downloading issue metadata'' w) of
        (Inl err, w1) \<Rightarrow> (Some err, w1)
      | (Inr issue, w1) \<Rightarrow>
          (case downloadAllPages env ctx issue
                  (entry_Info magazine metadata ''downloading issue'' w1) of
             (Inl err, w2) \<Rightarrow>
               (Wrapf (Some err)
                  (''failed to download '' @ Magazine.Title magazine @ '' ''
                     @ IssueMetadata.Title metadata), w2)
           | (Inr ps, w2) \<Rightarrow>
               (case save env session ps (Password issue) path
                       (entry_Info magazine metadata ''saving issue'' w2) of
                  (Some err, w3) \<Rightarrow> (Some err, w3)
                | (None, w3) \<Rightarrow> (None, w3))))"

text \<open>The body of the loop over the issues of one magazine.\<close>

definition issue_body ::
  "'r env \<Rightarrow> Context \<Rightarrow> Session \<Rightarrow> Magazine \<Rightarrow> string \<Rightarrow> IssueMetadata \<Rightarrow> world \<Rightarrow> world" where
  "issue_body env ctx session magazine dir metadata w =
     (let file = sanitize env (IssueMetadata.Title metadata);
          path = path_Join env dir (file @ ''.pdf'')
      in if os_Stat env w path = None then
           entry_Info magazine metadata ''issue already downloaded'' w
         else
           (case downloadIssue env ctx session magazine metadata path w of
              (Some err, w') \<Rightarrow> log_Error err w'
            | (None, w') \<Rightarrow> w'))"





section \<open>Vocabulary of the properties\<close>

text \<open>
  The stages of \<open>save\<close> after the merge, named for the statements below: the world
  after the temporary file was created, the world after the document was written to
  it, and whether each of the four file operations succeeded. Closing does not change
  the file system, so the rename starts from the world after the write.
\<close>

definition after_create :: "'r env \<Rightarrow> string \<Rightarrow> world \<Rightarrow> world" where
  "after_create env path w = snd (os_Create env (path @ ''.part'') w)"

definition after_write :: "'r env \<Rightarrow> PdfWriter \<Rightarrow> string \<Rightarrow> world \<Rightarrow> world" where
  "after_write env pdf path w =
     snd (pdf_Write env pdf (path @ ''.part'') (after_create env path w))"

definition create_ok :: "'r env \<Rightarrow> string \<Rightarrow> world \<Rightarrow> bool" where
  "create_ok env path w = (fst (os_Create env (path @ ''.part'') w) = None)"

definition write_ok :: "'r env \<Rightarrow> PdfWriter \<Rightarrow> string \<Rightarrow> world \<Rightarrow> bool" where
  "write_ok env pdf path w =
     (fst (pdf_Write env pdf (path @ ''.part'') (after_create env path w)) = None)"

definition close_ok :: "'r env \<Rightarrow> PdfWriter \<Rightarrow> string \<Rightarrow> world \<Rightarrow> bool" where
  "close_ok env pdf path w =
     (fst (file_Close env (path @ ''.part'') (after_write env pdf path w)) = None)"

definition rename_ok :: "'r env \<Rightarrow> PdfWriter \<Rightarrow> string \<Rightarrow> world \<Rightarrow> bool" where
  "rename_ok env pdf path w =
     (fst (os_Rename env (path @ ''.part'') path (after_write env pdf path w)) = None)"

text \<open>
  What the write left in the temporary file, and whether that is the complete
  document.
\<close>

definition written :: "'r env \<Rightarrow> PdfWriter \<Rightarrow> string \<Rightarrow> world \<Rightarrow> string" where
  "written env pdf path w = fst (Write_outcome env (after_create env path w) pdf)"

definition write_complete :: "'r env \<Rightarrow> PdfWriter \<Rightarrow> string \<Rightarrow> world \<Rightarrow> bool" where
  "write_complete env pdf path w = (written env pdf path w = serialize env pdf)"

text \<open>
  A page container rejects a password when it parses and its own validation answers
  \<^verbatim>\<open>false\<close> without an error.
\<close>

definition rejects :: "'r env \<Rightarrow> page \<Rightarrow> string \<Rightarrow> bool" where
  "rejects env p password =
     (case NewPdfReader env p of
        Inl err \<Rightarrow> False
      | Inr r \<Rightarrow> (case Decrypt env r password of Inl err \<Rightarrow> False | Inr (ok, r') \<Rightarrow> \<not> ok))"

text \<open>
  The merge as the specification words it: the sub-pages of one container are its
  internal pages in ascending 1-based index, each with its annotations cleared; the
  document is their concatenation over the containers in input order.
\<close>

definition cleared_subpage :: "'r env \<Rightarrow> 'r \<Rightarrow> int \<Rightarrow> PdfPage list" where
  "cleared_subpage env r k =
     (case GetPageAsPdfPage env r k of Inl err \<Rightarrow> [] | Inr sp \<Rightarrow> [sp\<lparr>Annots := None\<rparr>])"

definition container_subpages :: "'r env \<Rightarrow> string \<Rightarrow> page \<Rightarrow> PdfPage list" where
  "container_subpages env password p =
     (case NewPdfReader env p of
        Inl err \<Rightarrow> []
      | Inr r \<Rightarrow>
          (case Decrypt env r password of
             Inl err \<Rightarrow> []
           | Inr (ok, r') \<Rightarrow>
               (case GetNumPages env r' of
                  Inl err \<Rightarrow> []
                | Inr numPages \<Rightarrow>
                    concat (map (cleared_subpage env r') [1..numPages]))))"

text \<open>A successful fetch as it stands in the trace: the URL and the page it gave.\<close>

definition fetched_ok :: "string \<times> page \<Rightarrow> string \<times> (error + page)" where
  "fetched_ok up = (fst up, Inr (snd up))"

text \<open>
  Two stages of the function literal that handles one issue: the world in which the
  metadata request is made, and the world in which the page download starts.
\<close>

definition metadata_start :: "Magazine \<Rightarrow> IssueMetadata \<Rightarrow> world \<Rightarrow> world" where
  "metadata_start magazine metadata w =
     entry_Info magazine metadata ''downloading issue metadata'' w"

definition pages_start ::
  "'r env \<Rightarrow> Session \<Rightarrow> Magazine \<Rightarrow> IssueMetadata \<Rightarrow> world \<Rightarrow> world" where
  "pages_start env session magazine metadata w =
     entry_Info magazine metadata ''downloading issue''
       (snd (session_GetIssue env session (Magazine.ID magazine) (IssueMetadata.ID metadata)
               (metadata_start magazine metadata w)))"


text \<open>The world in which \<open>save\<close> starts for an issue whose pages are all there.\<close>

definition saving_start :: "Magazine \<Rightarrow> IssueMetadata \<Rightarrow> world \<Rightarrow> world" where
  "saving_start magazine metadata w = entry_Info magazine metadata ''saving issue'' w"




section \<open>Scenarios\<close>

text \<open>
  The concrete scenario of the specification: issue "Sample" of magazine "Weekly"
  has three pages at \<open>u/0\<close>, \<open>u/1\<close>, \<open>u/2\<close>; the server answers each URL with a
  single-page container whose content names the URL; the password is "secret";
  nothing fails. \<open>GetURL\<close> refuses an index below 0 or not below \<open>PageCount\<close>, as the
  API documentation says. The other scenarios change one collaborator of this one.
\<close>

definition sample_issue :: Issue where
  "sample_issue =
     \<lparr>ID = ''i1'', Title = ''Sample'', Password = ''secret'', PageCount = 3, baseURL = ''u''\<rparr>"

definition sample_metadata :: IssueMetadata where
  "sample_metadata = \<lparr>IssueMetadata.ID = ''i1'', IssueMetadata.Title = ''Sample''\<rparr>"

definition sample_magazine :: Magazine where
  "sample_magazine =
     \<lparr>Magazine.ID = ''m1'', Magazine.Title = ''Weekly'', Issues = [sample_metadata]\<rparr>"

definition sample_session :: Session where
  "sample_session =
     \<lparr>session_login = ''user'', session_password = ''pw'', session_profileID = ''p''\<rparr>"

definition sample_env :: "string env" where
  "sample_env =
     \<lparr>sanitize = (\<lambda>s. s),
      path_Join = (\<lambda>d f. d @ ''/'' @ f),
      GetIssue = (\<lambda>w s m i. Inr sample_issue),
      GetURL = (\<lambda>issue i.
        if i < 0 \<or> PageCount issue \<le> i then Inl (New ''page out of range'')
        else Inr (baseURL issue @ ''/'' @ Itoa i)),
      transport = (\<lambda>w ctx url. Inr \<lparr>StatusCode = 200, ResponseBody = Body url None\<rparr>),
      Stat_fault = (\<lambda>w name. None),
      Mkdir_fault = (\<lambda>w name. None),
      Create_fault = (\<lambda>w name. None),
      Write_outcome = (\<lambda>w pdf. (concat (map Contents (pages pdf)), None)),
      Close_fault = (\<lambda>w name. None),
      Rename_fault = (\<lambda>w old new. None),
      serialize = (\<lambda>pdf. concat (map Contents (pages pdf))),
      NewPdfReader = (\<lambda>p. case p of Page b \<Rightarrow> Inr b),
      Decrypt = (\<lambda>r pw. Inr (pw = ''secret'', r)),
      GetNumPages = (\<lambda>r. Inr 1),
      GetPageAsPdfPage = (\<lambda>r i.
        if i = 1 then Inr \<lparr>Annots = Some ''link'', Contents = r\<rparr>
        else Inl (New ''no such page'')),
      AddPage_fault = (\<lambda>w p. None)\<rparr>"

definition empty_world :: world where
  "empty_world =
     \<lparr>files = Map.empty, history = [], fetches = [], metadata_fetches = [], logged = []\<rparr>"

text \<open>
  Faults of the file system: closing the temporary file fails; the writer refuses the
  document and returns an error before it writes; the write stops after two bytes
  and the writer returns \<^verbatim>\<open>nil\<close> all the same; the rename fails.
\<close>

definition close_fault_env :: "string env" where
  "close_fault_env = sample_env\<lparr>Close_fault := (\<lambda>w name. Some (New ''close failed''))\<rparr>"

definition write_error_env :: "string env" where
  "write_error_env =
     sample_env\<lparr>Write_outcome := (\<lambda>w pdf. ([], Some (New ''document refused'')))\<rparr>"

definition short_write_env :: "string env" where
  "short_write_env =
     sample_env\<lparr>Write_outcome := (\<lambda>w pdf. (take 2 (concat (map Contents (pages pdf))), None))\<rparr>"

definition rename_fault_env :: "string env" where
  "rename_fault_env =
     sample_env\<lparr>Rename_fault := (\<lambda>w old new. Some (New ''rename refused''))\<rparr>"

text \<open>Faults of the network: the server answers 404 with an error page; the
  connection is refused; the body breaks off; the caller's context is already
  cancelled.\<close>

definition not_found_env :: "string env" where
  "not_found_env = sample_env\<lparr>transport :=
     (\<lambda>w ctx url. Inr \<lparr>StatusCode = 404, ResponseBody = Body ''Not Found'' None\<rparr>)\<rparr>"

definition offline_env :: "string env" where
  "offline_env = sample_env\<lparr>transport := (\<lambda>w ctx url. Inl (New ''connection refused''))\<rparr>"

definition truncated_env :: "string env" where
  "truncated_env = sample_env\<lparr>transport :=
     (\<lambda>w ctx url. Inr \<lparr>StatusCode = 200, ResponseBody = Body ''%PD'' (Some (New ''unexpected EOF''))\<rparr>)\<rparr>"

definition canceled :: Context where
  "canceled = Context (Some (New ''context canceled'')) None"

text \<open>A world in which the issue was downloaded by an earlier run.\<close>

definition downloaded_world :: world where
  "downloaded_world = empty_world\<lparr>files := [''Weekly/Sample.pdf'' \<mapsto> File ''old'']\<rparr>"

text \<open>The metadata collaborator fails.\<close>

definition metadata_fault_env :: "string env" where
  "metadata_fault_env = sample_env\<lparr>GetIssue := (\<lambda>w s m i. Inl (New ''metadata unavailable''))\<rparr>"

text \<open>
  The password is wrong for every container; the temporary file cannot be created.
\<close>

definition locked_env :: "string env" where
  "locked_env = sample_env\<lparr>Decrypt := (\<lambda>r pw. Inr (False, r))\<rparr>"

definition create_fault_env :: "string env" where
  "create_fault_env =
     sample_env\<lparr>Create_fault := (\<lambda>w name. Some (New ''permission denied''))\<rparr>"

text \<open>A batch of two magazines with three issues.\<close>

definition second_magazine :: Magazine where
  "second_magazine =
     \<lparr>Magazine.ID = ''m2'', Magazine.Title = ''Monthly'',
      Issues = [\<lparr>IssueMetadata.ID = ''i2'', IssueMetadata.Title = ''May''\<rparr>,
                \<lparr>IssueMetadata.ID = ''i3'', IssueMetadata.Title = ''June''\<rparr>]\<rparr>"

definition sample_batch :: "Magazine list" where
  "sample_batch = [sample_magazine, second_magazine]"




section \<open>Evaluation rules\<close>

lemmas scenario_defs = sample_env_def sample_issue_def sample_metadata_def
  sample_magazine_def sample_session_def empty_world_def close_fault_env_def
  write_error_env_def short_write_env_def rename_fault_env_def not_found_env_def offline_env_def truncated_env_def canceled_def
  downloaded_world_def metadata_fault_env_def locked_env_def create_fault_env_def
  second_magazine_def sample_batch_def

lemmas primitive_defs = downloadPage_def ctxhttp_Get_def WithTimeout_def Background_def
  Let_def Itoa_def os_Stat_def os_IsNotExist_def os_Mkdir_def os_Create_def pdf_Write_def
  file_Close_def os_Rename_def fs_update_def entry_Info_def log_Error_def
  session_GetIssue_def Wrapf_def Errorf_def AddPage_def NewPdfWriter_def
  downloadAllPages_loop.simps unlockAndMerge_subpages.simps

lemmas stage_defs = after_create_def after_write_def create_ok_def write_ok_def
  close_ok_def rename_ok_def written_def write_complete_def

lemmas issue_stage_defs = metadata_start_def pages_start_def saving_start_def



section \<open>save: the ways it ends\<close>



lemma save_temp_failed:
  "unlockAndMerge env ps password = Inr pdf \<Longrightarrow> create_ok env path w \<Longrightarrow>
   \<not> (write_ok env pdf path w \<and> close_ok env pdf path w) \<Longrightarrow>
   save env session ps password path w =
     (Wrapf (fst (pdf_Write env pdf (path @ ''.part'') (after_create env path w)))
        (''failed to save '' @ path), after_write env pdf path w)"
  by (auto simp: save_def stage_defs file_Close_def Let_def split: option.splits prod.splits)






section \<open>Persisting the merged document\<close>







text \<open>
  C3. What \<open>save\<close> returns when writing the temporary file goes wrong. A write that
  returns an error gives an error. A failed close after a successful write gives \<^verbatim>\<open>nil\<close>: the code
  wraps the write error, which is \<^verbatim>\<open>nil\<close>, and \<^verbatim>\<open>Wrapf\<close> of \<^verbatim>\<open>nil\<close> is \<^verbatim>\<open>nil\<close>; the
  claim asks for an error there.
\<close>

theorem save_close_failure_returns_nil:
  assumes merged: "unlockAndMerge env ps password = Inr pdf"
    and created: "create_ok env path w"
  shows "(write_ok env pdf path w \<and> \<not> close_ok env pdf path w \<longrightarrow>
            fst (save env session ps password path w) = None) \<and>
         (\<not> write_ok env pdf path w \<longrightarrow>
            fst (save env session ps password path w) \<noteq> None)"
  using merged created
  by (auto simp: save_temp_failed write_ok_def Wrapf_def split: option.splits)

theorem save_close_failure_returns_nil_witness:
  "unlockAndMerge close_fault_env [Page ''u/1''] ''secret''
     = Inr \<lparr>pages = [\<lparr>Annots = None, Contents = ''u/1''\<rparr>]\<rparr> \<and>
   create_ok close_fault_env ''Weekly/Sample.pdf'' empty_world \<and>
   write_ok close_fault_env \<lparr>pages = [\<lparr>Annots = None, Contents = ''u/1''\<rparr>]\<rparr>
     ''Weekly/Sample.pdf'' empty_world \<and>
   \<not> close_ok close_fault_env \<lparr>pages = [\<lparr>Annots = None, Contents = ''u/1''\<rparr>]\<rparr>
     ''Weekly/Sample.pdf'' empty_world \<and>
   fst (save close_fault_env sample_session [Page ''u/1''] ''secret'' ''Weekly/Sample.pdf''
     empty_world) = None"
proof -
  let ?pdf = "\<lparr>pages = [\<lparr>Annots = None, Contents = ''u/1''\<rparr>]\<rparr>"
  have merged: "unlockAndMerge close_fault_env [Page ''u/1''] ''secret'' = Inr ?pdf"
    by (simp add: unlockAndMerge_def scenario_defs primitive_defs)
  have created: "create_ok close_fault_env ''Weekly/Sample.pdf'' empty_world"
    by (simp add: stage_defs scenario_defs primitive_defs)
  have written: "write_ok close_fault_env ?pdf ''Weekly/Sample.pdf'' empty_world"
    by (simp add: stage_defs scenario_defs primitive_defs)
  have unclosed: "\<not> close_ok close_fault_env ?pdf ''Weekly/Sample.pdf'' empty_world"
    by (simp add: stage_defs scenario_defs primitive_defs)
  from save_close_failure_returns_nil[OF merged created, of sample_session] written unclosed
  show ?thesis using merged created by simp
qed

section \<open>Fetching one page\<close>

text \<open>
  C5 as stated fails: \<open>downloadPage\<close> never looks at the status code. A 404 response
  whose body reads to the end is returned as a page.
\<close>

theorem downloadPage_ignores_status:
  "transport not_found_env empty_world (WithTimeout Background (30 * time_Second)) ''u/0''
     = Inr \<lparr>StatusCode = 404, ResponseBody = Body ''Not Found'' None\<rparr> \<and>
   fst (downloadPage not_found_env Background ''u/0'' empty_world) = Inr (Page ''Not Found'')"
  by (simp add: scenario_defs primitive_defs)

text \<open>
  C5, amended. \<open>downloadPage\<close> returns the error when the context is already done, when
  the request fails, or when reading the body fails; otherwise it returns the whole
  body, whatever the status code.
\<close>

theorem downloadPage_outcome:
  "(\<forall>e. Err ctx = Some e \<longrightarrow> fst (downloadPage env ctx url w) = Inl e) \<and>
   (\<forall>e. Err ctx = None \<and>
        transport env w (WithTimeout ctx (30 * time_Second)) url = Inl e \<longrightarrow>
        fst (downloadPage env ctx url w) = Inl e) \<and>
   (\<forall>status b e. Err ctx = None \<and>
        transport env w (WithTimeout ctx (30 * time_Second)) url
          = Inr \<lparr>StatusCode = status, ResponseBody = Body b (Some e)\<rparr> \<longrightarrow>
        fst (downloadPage env ctx url w) = Inl e) \<and>
   (\<forall>status b. Err ctx = None \<and>
        transport env w (WithTimeout ctx (30 * time_Second)) url
          = Inr \<lparr>StatusCode = status, ResponseBody = Body b None\<rparr> \<longrightarrow>
        fst (downloadPage env ctx url w) = Inr (Page b))"
  by (auto simp: downloadPage_def ctxhttp_Get_def WithTimeout_def Let_def)

theorem downloadPage_outcome_witness:
  "Err canceled = Some (New ''context canceled'') \<and>
   fst (downloadPage sample_env canceled ''u/0'' empty_world) = Inl (New ''context canceled'') \<and>
   Err Background = None \<and>
   transport offline_env empty_world (WithTimeout Background (30 * time_Second)) ''u/0''
     = Inl (New ''connection refused'') \<and>
   fst (downloadPage offline_env Background ''u/0'' empty_world) = Inl (New ''connection refused'') \<and>
   transport truncated_env empty_world (WithTimeout Background (30 * time_Second)) ''u/0''
     = Inr \<lparr>StatusCode = 200, ResponseBody = Body ''%PD'' (Some (New ''unexpected EOF''))\<rparr> \<and>
   fst (downloadPage truncated_env Background ''u/0'' empty_world) = Inl (New ''unexpected EOF'') \<and>
   transport sample_env empty_world (WithTimeout Background (30 * time_Second)) ''u/0''
     = Inr \<lparr>StatusCode = 200, ResponseBody = Body ''u/0'' None\<rparr> \<and>
   fst (downloadPage sample_env Background ''u/0'' empty_world) = Inr (Page ''u/0'')"
proof -
  have c: "Err canceled = Some (New ''context canceled'')"
    by (simp add: canceled_def)
  have b: "Err Background = None"
    by (simp add: Background_def)
  have t1: "transport offline_env empty_world (WithTimeout Background (30 * time_Second)) ''u/0''
     = Inl (New ''connection refused'')"
    by (simp add: scenario_defs)
  have t2: "transport truncated_env empty_world (WithTimeout Background (30 * time_Second)) ''u/0''
     = Inr \<lparr>StatusCode = 200, ResponseBody = Body ''%PD'' (Some (New ''unexpected EOF''))\<rparr>"
    by (simp add: scenario_defs)
  have t3: "transport sample_env empty_world (WithTimeout Background (30 * time_Second)) ''u/0''
     = Inr \<lparr>StatusCode = 200, ResponseBody = Body ''u/0'' None\<rparr>"
    by (simp add: scenario_defs)
  have r0: "fst (downloadPage sample_env canceled ''u/0'' empty_world) = Inl (New ''context canceled'')"
    using downloadPage_outcome[of canceled sample_env "''u/0''" empty_world] c by simp
  have r1: "fst (downloadPage offline_env Background ''u/0'' empty_world) = Inl (New ''connection refused'')"
    using downloadPage_outcome[of Background offline_env "''u/0''" empty_world] b t1 by simp
  have r2: "fst (downloadPage truncated_env Background ''u/0'' empty_world) = Inl (New ''unexpected EOF'')"
    using downloadPage_outcome[of Background truncated_env "''u/0''" empty_world] b t2 by simp
  have r3: "fst (downloadPage sample_env Background ''u/0'' empty_world) = Inr (Page ''u/0'')"
    using downloadPage_outcome[of Background sample_env "''u/0''" empty_world] b t3 by simp
  from c b t1 t2 t3 r0 r1 r2 r3 show ?thesis by simp
qed


section \<open>Issues already downloaded\<close>

text \<open>
  C7. When the output file of an issue exists at its final path, processing the issue
  only adds the log line "issue already downloaded": the file system, its history,
  the page fetches and the metadata requests are unchanged, and no collaborator other
  than the two path functions is consulted (no fetch, no decrypt, no merge, no write).
\<close>

theorem existing_issue_skipped:
  assumes "files w (path_Join env dir (sanitize env (IssueMetadata.Title metadata) @ ''.pdf'')) \<noteq> None"
  shows "issue_body env ctx session magazine dir metadata w =
           w\<lparr>logged := logged w @
                [Info (Magazine.Title magazine) (IssueMetadata.Title metadata)
                   ''issue already downloaded'']\<rparr>"
  using assms by (auto simp: issue_body_def os_Stat_def entry_Info_def Let_def)

theorem existing_issue_skipped_witness:
  "files downloaded_world
     (path_Join sample_env ''Weekly'' (sanitize sample_env (IssueMetadata.Title sample_metadata) @ ''.pdf''))
     = Some (File ''old'') \<and>
   issue_body sample_env Background sample_session sample_magazine ''Weekly'' sample_metadata
       downloaded_world =
     downloaded_world\<lparr>logged := [Info ''Weekly'' ''Sample'' ''issue already downloaded'']\<rparr>"
proof -
  have present: "files downloaded_world
     (path_Join sample_env ''Weekly'' (sanitize sample_env (IssueMetadata.Title sample_metadata) @ ''.pdf''))
     = Some (File ''old'')"
    by (simp add: downloaded_world_def scenario_defs)
  then have "files downloaded_world
     (path_Join sample_env ''Weekly'' (sanitize sample_env (IssueMetadata.Title sample_metadata) @ ''.pdf''))
     \<noteq> None" by simp
  from existing_issue_skipped[OF this, of Background sample_session sample_magazine] present
  show ?thesis by (simp add: downloaded_world_def scenario_defs)
qed


section \<open>Decrypting and merging\<close>

text \<open>
  C4 as stated fails: the message of the decryption failure ends with the password,
  so two rejected passwords give two different messages.
\<close>

theorem decrypt_failure_names_password:
  "Decrypt sample_env ''u/0'' ''alpha'' = Inr (False, ''u/0'') \<and>
   Decrypt sample_env ''u/0'' ''bravo'' = Inr (False, ''u/0'') \<and>
   map_sum Error id (unlockAndMerge sample_env [Page ''u/0''] ''alpha'')
     = Inl ''failed to decrypt pages using password alpha'' \<and>
   map_sum Error id (unlockAndMerge sample_env [Page ''u/0''] ''bravo'')
     = Inl ''failed to decrypt pages using password bravo''"
  by (simp add: unlockAndMerge_def scenario_defs primitive_defs)

text \<open>
  C4, amended. When a container rejects the password, the loop (from any writer, so
  at any position of the page list) fails with the message "failed to decrypt pages
  using password " followed by the password; for two passwords rejected by the same
  container the messages are equal exactly when the passwords are.
\<close>

theorem decrypt_failure_message:
  assumes "rejects env p password1" and "rejects env p password2"
  shows "unlockAndMerge_loop env password1 w (p # rest)
           = Inl (New (''failed to decrypt pages using password '' @ password1)) \<and>
         unlockAndMerge_loop env password2 w (p # rest)
           = Inl (New (''failed to decrypt pages using password '' @ password2)) \<and>
         unlockAndMerge env (p # rest) password1
           = Inl (New (''failed to decrypt pages using password '' @ password1)) \<and>
         (Error (New (''failed to decrypt pages using password '' @ password1)) =
          Error (New (''failed to decrypt pages using password '' @ password2))
            \<longleftrightarrow> password1 = password2)"
  using assms
  by (auto simp: rejects_def unlockAndMerge_def Errorf_def split: sum.splits)

theorem decrypt_failure_message_witness:
  "rejects sample_env (Page ''u/0'') ''alpha'' \<and> rejects sample_env (Page ''u/0'') ''bravo'' \<and>
   unlockAndMerge sample_env [Page ''u/0''] ''alpha''
     = Inl (New ''failed to decrypt pages using password alpha'')"
proof -
  have a: "rejects sample_env (Page ''u/0'') ''alpha''"
    by (simp add: rejects_def scenario_defs)
  have b: "rejects sample_env (Page ''u/0'') ''bravo''"
    by (simp add: rejects_def scenario_defs)
  from decrypt_failure_message[OF a b, of NewPdfWriter "[]"] a b
  show ?thesis by simp
qed

lemma cleared_subpage_found:
  "GetPageAsPdfPage env r k = Inr sp \<Longrightarrow> cleared_subpage env r k = [sp\<lparr>Annots := None\<rparr>]"
  by (simp add: cleared_subpage_def)

lemma cleared_subpage_cleared:
  "sp \<in> set (cleared_subpage env r k) \<Longrightarrow> Annots sp = None"
  by (auto simp: cleared_subpage_def split: sum.splits)

lemma subpages_loop_pages:
  "unlockAndMerge_subpages env r numPages i w = Inr w' \<Longrightarrow>
   pages w' = pages w @ concat (map (cleared_subpage env r) [i + 1..numPages]) \<and>
   (\<forall>k \<in> set [i + 1..numPages]. \<exists>sp. GetPageAsPdfPage env r k = Inr sp)"
proof (induction env r numPages i w rule: unlockAndMerge_subpages.induct)
  case (1 env r numPages i w)
  show ?case
  proof (cases "i < numPages")
    case False
    with "1.prems" show ?thesis
      by (simp add: unlockAndMerge_subpages.simps)
  next
    case True
    from True "1.prems" obtain sp where sp: "GetPageAsPdfPage env r (i + 1) = Inr sp"
      by (auto simp: unlockAndMerge_subpages.simps[of env r numPages i w] split: sum.splits)
    from True "1.prems" sp obtain w1 where
      w1: "AddPage env w (sp\<lparr>Annots := None\<rparr>) = Inr w1"
      and rest: "unlockAndMerge_subpages env r numPages (i + 1) w1 = Inr w'"
      by (auto simp: unlockAndMerge_subpages.simps[of env r numPages i w] split: sum.splits)
    from w1 have p1: "pages w1 = pages w @ [sp\<lparr>Annots := None\<rparr>]"
      by (auto simp: AddPage_def split: option.splits)
    from "1.IH"[OF True sp w1 rest]
    have ih: "pages w' = pages w1 @ concat (map (cleared_subpage env r) [i + 1 + 1..numPages])"
      and ok: "\<forall>k \<in> set [i + 1 + 1..numPages]. \<exists>sp. GetPageAsPdfPage env r k = Inr sp"
      by auto
    from True have up: "[i + 1..numPages] = (i + 1) # [i + 1 + 1..numPages]"
      by (simp add: upto_rec1)
    from ih p1 sp ok show ?thesis
      unfolding up by (simp add: cleared_subpage_found)
  qed
qed

lemma container_subpages_opened:
  "NewPdfReader env p = Inr r \<Longrightarrow> Decrypt env r password = Inr (ok, r') \<Longrightarrow>
   GetNumPages env r' = Inr numPages \<Longrightarrow>
   container_subpages env password p = concat (map (cleared_subpage env r') [1..numPages])"
  by (simp add: container_subpages_def)

lemma merge_loop_pages:
  "unlockAndMerge_loop env password w ps = Inr w' \<Longrightarrow>
   pages w' = pages w @ concat (map (container_subpages env password) ps)"
proof (induction ps arbitrary: w)
  case Nil
  then show ?case by simp
next
  case (Cons p rest)
  from Cons.prems obtain r where r: "NewPdfReader env p = Inr r"
    by (auto split: sum.splits)
  from Cons.prems r obtain r' where d: "Decrypt env r password = Inr (True, r')"
    by (auto split: sum.splits if_splits)
  from Cons.prems r d obtain numPages where n: "GetNumPages env r' = Inr numPages"
    by (auto split: sum.splits)
  from Cons.prems r d n obtain w1 where
    sub: "unlockAndMerge_subpages env r' numPages 0 w = Inr w1"
    and rest: "unlockAndMerge_loop env password w1 rest = Inr w'"
    by (auto split: sum.splits)
  from subpages_loop_pages[OF sub]
  have "pages w1 = pages w @ concat (map (cleared_subpage env r') [1..numPages])"
    by simp
  with container_subpages_opened[OF r d n]
  have "pages w1 = pages w @ container_subpages env password p" by simp
  with Cons.IH[OF rest] show ?case by simp
qed

lemma container_subpages_cleared:
  "sp \<in> set (container_subpages env password p) \<Longrightarrow> Annots sp = None"
  by (auto simp: container_subpages_def split: sum.splits dest: cleared_subpage_cleared)

lemma merge_loop_opened:
  "unlockAndMerge_loop env password w ps = Inr w' \<Longrightarrow> p \<in> set ps \<Longrightarrow>
   \<exists>r r' numPages. NewPdfReader env p = Inr r \<and> Decrypt env r password = Inr (True, r') \<and>
      GetNumPages env r' = Inr numPages \<and>
      (\<forall>k \<in> set [1..numPages]. \<exists>sp. GetPageAsPdfPage env r' k = Inr sp)"
proof (induction ps arbitrary: w)
  case Nil
  then show ?case by simp
next
  case (Cons q rest)
  from Cons.prems(1) obtain r where r: "NewPdfReader env q = Inr r"
    by (auto split: sum.splits)
  from Cons.prems(1) r obtain r' where d: "Decrypt env r password = Inr (True, r')"
    by (auto split: sum.splits if_splits)
  from Cons.prems(1) r d obtain numPages where n: "GetNumPages env r' = Inr numPages"
    by (auto split: sum.splits)
  from Cons.prems(1) r d n obtain w1 where
    sub: "unlockAndMerge_subpages env r' numPages 0 w = Inr w1"
    and rest: "unlockAndMerge_loop env password w1 rest = Inr w'"
    by (auto split: sum.splits)
  show ?case
  proof (cases "p = q")
    case True
    with r d n subpages_loop_pages[OF sub] show ?thesis by auto
  next
    case False
    with Cons.prems(2) have "p \<in> set rest" by simp
    from Cons.IH[OF rest this] show ?thesis .
  qed
qed

lemma cleared_subpages_nth:
  "\<forall>k \<in> set ks. \<exists>sp. GetPageAsPdfPage env r k = Inr sp \<Longrightarrow>
   length (concat (map (cleared_subpage env r) ks)) = length ks \<and>
   (\<forall>j < length ks. \<exists>sp. GetPageAsPdfPage env r (ks ! j) = Inr sp \<and>
        concat (map (cleared_subpage env r) ks) ! j = sp\<lparr>Annots := None\<rparr>)"
proof (induction ks)
  case Nil
  then show ?case by simp
next
  case (Cons k ks)
  from Cons.prems obtain sp where sp: "GetPageAsPdfPage env r k = Inr sp" by auto
  from Cons.prems have "\<forall>k \<in> set ks. \<exists>sp. GetPageAsPdfPage env r k = Inr sp" by simp
  from Cons.IH[OF this] sp show ?case
    by (auto simp: cleared_subpage_found nth_Cons split: nat.splits)
qed

text \<open>
  C8. When \<open>unlockAndMerge\<close> succeeds, the pages of the writer are the sub-pages of
  the containers, container after container in input order; every page has its
  annotations cleared; and every container was opened with the password, reported
  \<open>numPages\<close> sub-pages and contributes exactly these, the one at position \<open>j\<close> being
  the sub-page of 1-based index \<open>j + 1\<close>.
\<close>

theorem unlockAndMerge_order:
  assumes "unlockAndMerge env ps password = Inr w"
  shows "pages w = concat (map (container_subpages env password) ps) \<and>
         (\<forall>sp \<in> set (pages w). Annots sp = None) \<and>
         (\<forall>p \<in> set ps. \<exists>r r' numPages.
            NewPdfReader env p = Inr r \<and> Decrypt env r password = Inr (True, r') \<and>
            GetNumPages env r' = Inr numPages \<and>
            length (container_subpages env password p) = nat numPages \<and>
            (\<forall>j < nat numPages. \<exists>sp.
               GetPageAsPdfPage env r' (int j + 1) = Inr sp \<and>
               container_subpages env password p ! j = sp\<lparr>Annots := None\<rparr>))"
proof -
  from assms merge_loop_pages[of env password NewPdfWriter ps w]
  have order: "pages w = concat (map (container_subpages env password) ps)"
    by (simp add: unlockAndMerge_def NewPdfWriter_def)
  then have cleared: "\<forall>sp \<in> set (pages w). Annots sp = None"
    by (auto dest: container_subpages_cleared)
  have "\<exists>r r' numPages.
            NewPdfReader env p = Inr r \<and> Decrypt env r password = Inr (True, r') \<and>
            GetNumPages env r' = Inr numPages \<and>
            length (container_subpages env password p) = nat numPages \<and>
            (\<forall>j < nat numPages. \<exists>sp.
               GetPageAsPdfPage env r' (int j + 1) = Inr sp \<and>
               container_subpages env password p ! j = sp\<lparr>Annots := None\<rparr>)"
    if "p \<in> set ps" for p
  proof -
    from assms have "unlockAndMerge_loop env password NewPdfWriter ps = Inr w"
      by (simp add: unlockAndMerge_def)
    from merge_loop_opened[OF this that] obtain r r' numPages where
      r: "NewPdfReader env p = Inr r" and d: "Decrypt env r password = Inr (True, r')"
      and n: "GetNumPages env r' = Inr numPages"
      and all: "\<forall>k \<in> set [1..numPages]. \<exists>sp. GetPageAsPdfPage env r' k = Inr sp"
      by blast
    note c = container_subpages_opened[OF r d n]
    from cleared_subpages_nth[OF all]
    have len: "length (container_subpages env password p) = nat numPages"
      and nth: "\<forall>j < nat numPages. \<exists>sp. GetPageAsPdfPage env r' ([1..numPages] ! j) = Inr sp \<and>
          container_subpages env password p ! j = sp\<lparr>Annots := None\<rparr>"
      unfolding c by auto
    have "[1..numPages] ! j = int j + 1" if "j < nat numPages" for j
      using that by (simp add: nth_upto)
    with nth have "\<forall>j < nat numPages. \<exists>sp. GetPageAsPdfPage env r' (int j + 1) = Inr sp \<and>
          container_subpages env password p ! j = sp\<lparr>Annots := None\<rparr>"
      by (simp add: add.commute)
    with r d n len show ?thesis by blast
  qed
  with order cleared show ?thesis by blast
qed

theorem unlockAndMerge_order_witness:
  "unlockAndMerge sample_env [Page ''u/1'', Page ''u/2'', Page ''u/0''] ''secret''
     = Inr \<lparr>pages = [\<lparr>Annots = None, Contents = ''u/1''\<rparr>,
                     \<lparr>Annots = None, Contents = ''u/2''\<rparr>,
                     \<lparr>Annots = None, Contents = ''u/0''\<rparr>]\<rparr> \<and>
   concat (map (container_subpages sample_env ''secret'') [Page ''u/1'', Page ''u/2'', Page ''u/0''])
     = [\<lparr>Annots = None, Contents = ''u/1''\<rparr>,
        \<lparr>Annots = None, Contents = ''u/2''\<rparr>,
        \<lparr>Annots = None, Contents = ''u/0''\<rparr>]"
proof -
  have run: "unlockAndMerge sample_env [Page ''u/1'', Page ''u/2'', Page ''u/0''] ''secret''
     = Inr \<lparr>pages = [\<lparr>Annots = None, Contents = ''u/1''\<rparr>,
                     \<lparr>Annots = None, Contents = ''u/2''\<rparr>,
                     \<lparr>Annots = None, Contents = ''u/0''\<rparr>]\<rparr>"
    by (simp add: unlockAndMerge_def scenario_defs primitive_defs)
  from unlockAndMerge_order[OF run] run show ?thesis by simp
qed

section \<open>Downloading the pages of an issue\<close>

text \<open>
  The loop of \<open>downloadAllPages\<close> from index \<open>i\<close>: it touches nothing but the fetch
  trace; it fetches the URLs of the indices \<open>i\<close>, \<open>i + 1\<close>, ... in order, once each;
  it ends with all pages up to \<open>PageCount\<close>, or at the first index whose URL cannot be
  derived (the error is returned as it is) or whose fetch fails (the error is wrapped
  with the page index).
\<close>

lemma downloadPage_frame:
  "snd (downloadPage env ctx url w) =
     w\<lparr>fetches := fetches w @ [(url, fst (downloadPage env ctx url w))]\<rparr>"
  by (simp add: downloadPage_def Let_def)

lemma loop_trace:
  "downloadAllPages_loop env ctx issue i ps w = (r, w') \<Longrightarrow>
   \<exists>fetched.
     (\<forall>k < length fetched. GetURL env issue (i + int k) = Inr (fst (fetched ! k))) \<and>
     files w' = files w \<and> history w' = history w \<and>
     metadata_fetches w' = metadata_fetches w \<and> logged w' = logged w \<and>
     (case r of
        Inr qs \<Rightarrow>
          fetches w' = fetches w @ map fetched_ok fetched \<and>
          qs = ps @ map snd fetched \<and>
          int (length fetched) = max 0 (PageCount issue - i)
      | Inl e \<Rightarrow>
          i + int (length fetched) < PageCount issue \<and>
          ((fetches w' = fetches w @ map fetched_ok fetched \<and>
            GetURL env issue (i + int (length fetched)) = Inl e) \<or>
           (\<exists>u e0. GetURL env issue (i + int (length fetched)) = Inr u \<and>
              fetches w' = fetches w @ map fetched_ok fetched @ [(u, Inl e0)] \<and>
              e = WithMessage e0
                    (''failed to download page '' @ Itoa (i + int (length fetched))))))"
proof (induction "nat (PageCount issue - i)" arbitrary: i ps w)
  case 0
  then have "\<not> i < PageCount issue" by simp
  with "0.prems" have "r = Inr ps" "w' = w"
    by (simp_all add: downloadAllPages_loop.simps[of env ctx issue i ps w])
  then show ?case
    using \<open>\<not> i < PageCount issue\<close> by (intro exI[of _ "[]"]) simp
next
  case (Suc n)
  then have lt: "i < PageCount issue" by simp
  show ?case
  proof (cases "GetURL env issue i")
    case (Inl err)
    with lt Suc.prems have "r = Inl err" "w' = w"
      by (simp_all add: downloadAllPages_loop.simps[of env ctx issue i ps w])
    with lt Inl show ?thesis
      by (intro exI[of _ "[]"]) simp
  next
    case (Inr url)
    let ?w1 = "snd (downloadPage env ctx url w)"
    have w1: "?w1 = w\<lparr>fetches := fetches w @ [(url, fst (downloadPage env ctx url w))]\<rparr>"
      by (rule downloadPage_frame)
    show ?thesis
    proof (cases "fst (downloadPage env ctx url w)")
      case failed: (Inl err)
      with lt Inr Suc.prems
      have "r = Inl (WithMessage err (''failed to download page '' @ Itoa i))" "w' = ?w1"
        by (simp_all add: downloadAllPages_loop.simps[of env ctx issue i ps w]
            split: prod.splits)
      with lt Inr w1 failed show ?thesis
        by (intro exI[of _ "[]"]) simp
    next
      case got: (Inr p)
      with lt Inr Suc.prems
      have rest: "downloadAllPages_loop env ctx issue (i + 1) (ps @ [p]) ?w1 = (r, w')"
        by (simp add: downloadAllPages_loop.simps[of env ctx issue i ps w]
            split: prod.splits)
      from Suc.hyps(2) have "n = nat (PageCount issue - (i + 1))" by simp
      from Suc.hyps(1)[OF this rest] obtain fetched where
        urls: "\<forall>k < length fetched. GetURL env issue (i + 1 + int k) = Inr (fst (fetched ! k))"
        and frame: "files w' = files ?w1" "history w' = history ?w1"
          "metadata_fetches w' = metadata_fetches ?w1" "logged w' = logged ?w1"
        and res: "(case r of
            Inr qs \<Rightarrow>
              fetches w' = fetches ?w1 @ map fetched_ok fetched \<and>
              qs = (ps @ [p]) @ map snd fetched \<and>
              int (length fetched) = max 0 (PageCount issue - (i + 1))
          | Inl e \<Rightarrow>
              i + 1 + int (length fetched) < PageCount issue \<and>
              ((fetches w' = fetches ?w1 @ map fetched_ok fetched \<and>
                GetURL env issue (i + 1 + int (length fetched)) = Inl e) \<or>
               (\<exists>u e0. GetURL env issue (i + 1 + int (length fetched)) = Inr u \<and>
                  fetches w' = fetches ?w1 @ map fetched_ok fetched @ [(u, Inl e0)] \<and>
                  e = WithMessage e0
                        (''failed to download page '' @ Itoa (i + 1 + int (length fetched))))))"
        by blast
      let ?all = "(url, p) # fetched"
      have f1: "fetches ?w1 = fetches w @ [fetched_ok (url, p)]"
        using w1 got by (simp add: fetched_ok_def)
      have urls': "\<forall>k < length ?all. GetURL env issue (i + int k) = Inr (fst (?all ! k))"
      proof (intro allI impI)
        fix k assume "k < length ?all"
        then show "GetURL env issue (i + int k) = Inr (fst (?all ! k))"
          using urls Inr by (cases k) (simp_all add: algebra_simps)
      qed
      have frame': "files w' = files w" "history w' = history w"
        "metadata_fetches w' = metadata_fetches w" "logged w' = logged w"
        using frame w1 by simp_all
      have len: "i + 1 + int (length fetched) = i + int (length ?all)" by simp
      have res': "(case r of
            Inr qs \<Rightarrow>
              fetches w' = fetches w @ map fetched_ok ?all \<and>
              qs = ps @ map snd ?all \<and>
              int (length ?all) = max 0 (PageCount issue - i)
          | Inl e \<Rightarrow>
              i + int (length ?all) < PageCount issue \<and>
              ((fetches w' = fetches w @ map fetched_ok ?all \<and>
                GetURL env issue (i + int (length ?all)) = Inl e) \<or>
               (\<exists>u e0. GetURL env issue (i + int (length ?all)) = Inr u \<and>
                  fetches w' = fetches w @ map fetched_ok ?all @ [(u, Inl e0)] \<and>
                  e = WithMessage e0
                        (''failed to download page '' @ Itoa (i + int (length ?all))))))"
      proof (cases r)
        case (Inl e)
        with res show ?thesis unfolding len[symmetric] by (simp add: f1)
      next
        case (Inr qs)
        with res lt show ?thesis by (simp add: f1)
      qed
      from urls' frame' res' show ?thesis by blast
    qed
  qed
qed

lemma fetched_ok_inj: "map fetched_ok xs = map fetched_ok ys \<Longrightarrow> xs = ys"
proof -
  have "inj fetched_ok"
    by (rule injI) (auto simp: fetched_ok_def prod_eq_iff)
  then show "map fetched_ok xs = map fetched_ok ys \<Longrightarrow> xs = ys"
    by (simp add: inj_map_eq_map)
qed

lemma fetched_ok_no_failure: "(u, Inl e) \<notin> set (map fetched_ok xs)"
  by (auto simp: fetched_ok_def)

lemma rotation_as_written: "(if length qs > 0 then tl qs @ [hd qs] else qs) = rotate1 qs"
  by (cases qs) simp_all

lemma downloadAllPages_unfold:
  "downloadAllPages env ctx issue w = (r, w') \<Longrightarrow>
   \<exists>r0. downloadAllPages_loop env ctx issue 0 [] w = (r0, w') \<and>
        r = (case r0 of Inl e \<Rightarrow> Inl e | Inr qs \<Rightarrow> Inr (rotate1 qs))"
  by (auto simp: downloadAllPages_def rotation_as_written split: prod.splits sum.splits
      simp del: length_greater_0_conv)

text \<open>
  C1. Take a run of \<open>downloadAllPages\<close> in which every page URL can be derived and
  every fetch made succeeded, \<open>fetched\<close> being the URLs and pages in fetch order. Then
  the run returns the fetched pages rotated left by one: the page at position \<open>k\<close> of
  the result is the one fetched at position \<open>k + 1\<close>, the last is the one fetched first.
  There is one fetch per page index \<open>0, ..., PageCount - 1\<close>, and with \<open>PageCount = 0\<close>
  the result is empty.
\<close>

theorem downloadAllPages_rotates:
  assumes run: "downloadAllPages env ctx issue w = (r, w')"
    and urls: "\<forall>i. 0 \<le> i \<and> i < PageCount issue \<longrightarrow> (\<exists>u. GetURL env issue i = Inr u)"
    and fetched: "fetches w' = fetches w @ map fetched_ok fetched"
  shows "r = Inr (rotate1 (map snd fetched)) \<and>
         int (length fetched) = max 0 (PageCount issue) \<and>
         (\<forall>k < length fetched. GetURL env issue (int k) = Inr (fst (fetched ! k))) \<and>
         (\<forall>k < length fetched.
            rotate1 (map snd fetched) ! k = snd (fetched ! ((k + 1) mod length fetched))) \<and>
         (PageCount issue = 0 \<longrightarrow> r = Inr [])"
proof -
  from downloadAllPages_unfold[OF run] obtain r0 where
    loop: "downloadAllPages_loop env ctx issue 0 [] w = (r0, w')"
    and r: "r = (case r0 of Inl e \<Rightarrow> Inl e | Inr qs \<Rightarrow> Inr (rotate1 qs))" by blast
  from loop_trace[OF loop] obtain fetched' where
    at: "\<forall>k < length fetched'. GetURL env issue (0 + int k) = Inr (fst (fetched' ! k))"
    and res: "(case r0 of
        Inr qs \<Rightarrow>
          fetches w' = fetches w @ map fetched_ok fetched' \<and>
          qs = [] @ map snd fetched' \<and>
          int (length fetched') = max 0 (PageCount issue - 0)
      | Inl e \<Rightarrow>
          0 + int (length fetched') < PageCount issue \<and>
          ((fetches w' = fetches w @ map fetched_ok fetched' \<and>
            GetURL env issue (0 + int (length fetched')) = Inl e) \<or>
           (\<exists>u e0. GetURL env issue (0 + int (length fetched')) = Inr u \<and>
              fetches w' = fetches w @ map fetched_ok fetched' @ [(u, Inl e0)] \<and>
              e = WithMessage e0
                    (''failed to download page '' @ Itoa (0 + int (length fetched'))))))"
    by blast
  show ?thesis
  proof (cases r0)
    case (Inl e)
    with res have lt: "int (length fetched') < PageCount issue"
      and alt: "GetURL env issue (int (length fetched')) = Inl e \<or>
        (\<exists>u e0. fetches w' = fetches w @ map fetched_ok fetched' @ [(u, Inl e0)])"
      by auto
    from urls lt obtain u where "GetURL env issue (int (length fetched')) = Inr u"
      by (metis of_nat_0_le_iff)
    with alt obtain u e0 where
      "fetches w' = fetches w @ map fetched_ok fetched' @ [(u, Inl e0)]" by auto
    with fetched have "map fetched_ok fetched = map fetched_ok fetched' @ [(u, Inl e0)]"
      by simp
    then have "(u, Inl e0) \<in> set (map fetched_ok fetched)" by simp
    with fetched_ok_no_failure show ?thesis by blast
  next
    case (Inr qs)
    with res have f': "fetches w' = fetches w @ map fetched_ok fetched'"
      and qs: "qs = map snd fetched'"
      and len: "int (length fetched') = max 0 (PageCount issue)" by auto
    from f' fetched have same: "fetched = fetched'"
      by (simp add: fetched_ok_inj)
    from r Inr qs same have result: "r = Inr (rotate1 (map snd fetched))" by simp
    have nth: "\<forall>k < length fetched.
        rotate1 (map snd fetched) ! k = snd (fetched ! ((k + 1) mod length fetched))"
    proof (intro allI impI)
      fix k assume k: "k < length fetched"
      then have "0 < length fetched" by linarith
      then have "Suc k mod length fetched < length fetched" by (rule mod_less_divisor)
      with k show "rotate1 (map snd fetched) ! k = snd (fetched ! ((k + 1) mod length fetched))"
        by (simp add: nth_rotate1)
    qed
    have empty: "PageCount issue = 0 \<longrightarrow> r = Inr []"
      using result len same by auto
    from result len same at nth empty show ?thesis by simp
  qed
qed

theorem downloadAllPages_rotates_witness:
  "fetches (snd (downloadAllPages sample_env Background sample_issue empty_world)) =
     fetches empty_world @
       map fetched_ok [(''u/0'', Page ''u/0''), (''u/1'', Page ''u/1''), (''u/2'', Page ''u/2'')] \<and>
   fst (downloadAllPages sample_env Background sample_issue empty_world) =
     Inr [Page ''u/1'', Page ''u/2'', Page ''u/0'']"
proof -
  let ?run = "downloadAllPages sample_env Background sample_issue empty_world"
  have run: "?run = (fst ?run, snd ?run)" by simp
  have urls: "\<forall>i. 0 \<le> i \<and> i < PageCount sample_issue \<longrightarrow>
      (\<exists>u. GetURL sample_env sample_issue i = Inr u)"
    by (simp add: scenario_defs)
  have fetched: "fetches (snd ?run) = fetches empty_world @
       map fetched_ok [(''u/0'', Page ''u/0''), (''u/1'', Page ''u/1''), (''u/2'', Page ''u/2'')]"
    by (simp add: downloadAllPages_def fetched_ok_def scenario_defs primitive_defs)
  from downloadAllPages_rotates[OF run urls fetched] fetched
  show ?thesis by simp
qed

section \<open>One issue: fetch attempts and failures\<close>

lemma downloadAllPages_trace:
  assumes run: "downloadAllPages env ctx issue w = (r, w')"
  shows "\<exists>fetched.
     (\<forall>k < length fetched. GetURL env issue (int k) = Inr (fst (fetched ! k))) \<and>
     files w' = files w \<and> history w' = history w \<and>
     metadata_fetches w' = metadata_fetches w \<and> logged w' = logged w \<and>
     (case r of
        Inr ps \<Rightarrow>
          fetches w' = fetches w @ map fetched_ok fetched \<and>
          ps = rotate1 (map snd fetched) \<and>
          int (length fetched) = max 0 (PageCount issue)
      | Inl e \<Rightarrow>
          int (length fetched) < PageCount issue \<and>
          ((fetches w' = fetches w @ map fetched_ok fetched \<and>
            GetURL env issue (int (length fetched)) = Inl e) \<or>
           (\<exists>u e0. GetURL env issue (int (length fetched)) = Inr u \<and>
              fetches w' = fetches w @ map fetched_ok fetched @ [(u, Inl e0)] \<and>
              e = WithMessage e0
                    (''failed to download page '' @ Itoa (int (length fetched))))))"
proof -
  from downloadAllPages_unfold[OF run] obtain r0 where
    loop: "downloadAllPages_loop env ctx issue 0 [] w = (r0, w')"
    and r: "r = (case r0 of Inl e \<Rightarrow> Inl e | Inr qs \<Rightarrow> Inr (rotate1 qs))" by blast
  from loop_trace[OF loop] obtain fetched where
    at: "\<forall>k < length fetched. GetURL env issue (0 + int k) = Inr (fst (fetched ! k))"
    and frame: "files w' = files w" "history w' = history w"
      "metadata_fetches w' = metadata_fetches w" "logged w' = logged w"
    and res: "(case r0 of
        Inr qs \<Rightarrow>
          fetches w' = fetches w @ map fetched_ok fetched \<and>
          qs = [] @ map snd fetched \<and>
          int (length fetched) = max 0 (PageCount issue - 0)
      | Inl e \<Rightarrow>
          0 + int (length fetched) < PageCount issue \<and>
          ((fetches w' = fetches w @ map fetched_ok fetched \<and>
            GetURL env issue (0 + int (length fetched)) = Inl e) \<or>
           (\<exists>u e0. GetURL env issue (0 + int (length fetched)) = Inr u \<and>
              fetches w' = fetches w @ map fetched_ok fetched @ [(u, Inl e0)] \<and>
              e = WithMessage e0
                    (''failed to download page '' @ Itoa (0 + int (length fetched))))))"
    by blast
  have "(case r of
        Inr ps \<Rightarrow>
          fetches w' = fetches w @ map fetched_ok fetched \<and>
          ps = rotate1 (map snd fetched) \<and>
          int (length fetched) = max 0 (PageCount issue)
      | Inl e \<Rightarrow>
          int (length fetched) < PageCount issue \<and>
          ((fetches w' = fetches w @ map fetched_ok fetched \<and>
            GetURL env issue (int (length fetched)) = Inl e) \<or>
           (\<exists>u e0. GetURL env issue (int (length fetched)) = Inr u \<and>
              fetches w' = fetches w @ map fetched_ok fetched @ [(u, Inl e0)] \<and>
              e = WithMessage e0
                    (''failed to download page '' @ Itoa (int (length fetched))))))"
    using res r by (cases r0) simp_all
  with at frame show ?thesis
    by (intro exI[of _ fetched]) simp
qed




lemma downloadIssue_pages_failed:
  "GetIssue env (metadata_start magazine metadata w) session
     (Magazine.ID magazine) (IssueMetadata.ID metadata) = Inr issue \<Longrightarrow>
   downloadAllPages env ctx issue (pages_start env session magazine metadata w) = (Inl e, w2) \<Longrightarrow>
   downloadIssue env ctx session magazine metadata path w =
     (Some (WithMessage e (''failed to download '' @ Magazine.Title magazine @ '' ''
              @ IssueMetadata.Title metadata)), w2)"
  by (simp add: downloadIssue_def session_GetIssue_def pages_start_def metadata_start_def
      Wrapf_def)

lemma downloadIssue_saving:
  "GetIssue env (metadata_start magazine metadata w) session
     (Magazine.ID magazine) (IssueMetadata.ID metadata) = Inr issue \<Longrightarrow>
   downloadAllPages env ctx issue (pages_start env session magazine metadata w) = (Inr ps, w2) \<Longrightarrow>
   downloadIssue env ctx session magazine metadata path w =
     save env session ps (Password issue) path
       (entry_Info magazine metadata ''saving issue'' w2)"
  by (auto simp: downloadIssue_def session_GetIssue_def pages_start_def metadata_start_def
      split: prod.splits option.splits)

lemma pages_start_frame:
  "files (pages_start env session magazine metadata w) = files w \<and>
   history (pages_start env session magazine metadata w) = history w \<and>
   fetches (pages_start env session magazine metadata w) = fetches w \<and>
   metadata_fetches (pages_start env session magazine metadata w) =
     metadata_fetches w @ [(Magazine.ID magazine, IssueMetadata.ID metadata)] \<and>
   logged (pages_start env session magazine metadata w) =
     logged w @ [Info (Magazine.Title magazine) (IssueMetadata.Title metadata)
                   ''downloading issue metadata'',
                 Info (Magazine.Title magazine) (IssueMetadata.Title metadata)
                   ''downloading issue'']"
  by (simp add: pages_start_def metadata_start_def session_GetIssue_def entry_Info_def)

lemma attempts_of_run:
  assumes run: "downloadAllPages env ctx issue w = (r, w')"
  shows "\<exists>attempts.
           fetches w' = fetches w @ attempts \<and>
           int (length attempts) \<le> max 0 (PageCount issue) \<and>
           (\<forall>k < length attempts. GetURL env issue (int k) = Inr (fst (attempts ! k))) \<and>
           (\<forall>k. Suc k < length attempts \<longrightarrow> (\<exists>p. snd (attempts ! k) = Inr p)) \<and>
           (\<forall>ps. r = Inr ps \<longrightarrow>
              (\<exists>fetched. attempts = map fetched_ok fetched \<and> ps = rotate1 (map snd fetched)) \<and>
              int (length attempts) = max 0 (PageCount issue) \<and>
              int (length ps) = max 0 (PageCount issue) \<and>
              (\<forall>i. 0 \<le> i \<and> i < PageCount issue \<longrightarrow> (\<exists>u. GetURL env issue i = Inr u))) \<and>
           (\<forall>e. r = Inl e \<longrightarrow>
              (\<exists>i. 0 \<le> i \<and> i < PageCount issue \<and>
                 (GetURL env issue i = Inl e \<or>
                  (\<exists>e0. e = WithMessage e0 (''failed to download page '' @ Itoa i)))))"
proof -
  from downloadAllPages_trace[OF run] obtain fetched where
    at: "\<forall>k < length fetched. GetURL env issue (int k) = Inr (fst (fetched ! k))"
    and res: "(case r of
        Inr ps \<Rightarrow>
          fetches w' = fetches w @ map fetched_ok fetched \<and>
          ps = rotate1 (map snd fetched) \<and>
          int (length fetched) = max 0 (PageCount issue)
      | Inl e \<Rightarrow>
          int (length fetched) < PageCount issue \<and>
          ((fetches w' = fetches w @ map fetched_ok fetched \<and>
            GetURL env issue (int (length fetched)) = Inl e) \<or>
           (\<exists>u e0. GetURL env issue (int (length fetched)) = Inr u \<and>
              fetches w' = fetches w @ map fetched_ok fetched @ [(u, Inl e0)] \<and>
              e = WithMessage e0
                    (''failed to download page '' @ Itoa (int (length fetched))))))"
    by blast
  have at': "\<forall>k < length (map fetched_ok fetched).
      GetURL env issue (int k) = Inr (fst (map fetched_ok fetched ! k))"
    using at by (simp add: fetched_ok_def)
  have ok': "\<forall>k < length (map fetched_ok fetched). \<exists>p. snd (map fetched_ok fetched ! k) = Inr p"
    by (simp add: fetched_ok_def)
  show ?thesis
  proof (cases r)
    case (Inr ps)
    with res have f: "fetches w' = fetches w @ map fetched_ok fetched"
      and ps: "ps = rotate1 (map snd fetched)"
      and len: "int (length fetched) = max 0 (PageCount issue)"
      by auto
    have urls: "\<exists>u. GetURL env issue i = Inr u" if "0 \<le> i \<and> i < PageCount issue" for i
    proof -
      from that len have "nat i < length fetched" by linarith
      with at have "GetURL env issue (int (nat i)) = Inr (fst (fetched ! nat i))" by blast
      with that show ?thesis by auto
    qed
    from Inr f ps len urls at' ok' show ?thesis
      by (intro exI[of _ "map fetched_ok fetched"]) auto
  next
    case (Inl e)
    from Inl res have lt: "int (length fetched) < PageCount issue"
      and alt: "(fetches w' = fetches w @ map fetched_ok fetched \<and>
            GetURL env issue (int (length fetched)) = Inl e) \<or>
           (\<exists>u e0. GetURL env issue (int (length fetched)) = Inr u \<and>
              fetches w' = fetches w @ map fetched_ok fetched @ [(u, Inl e0)] \<and>
              e = WithMessage e0
                    (''failed to download page '' @ Itoa (int (length fetched))))"
      by auto
    from alt show ?thesis
    proof
      assume a: "fetches w' = fetches w @ map fetched_ok fetched \<and>
            GetURL env issue (int (length fetched)) = Inl e"
      with lt have cause: "\<exists>i. 0 \<le> i \<and> i < PageCount issue \<and>
                 (GetURL env issue i = Inl e \<or>
                  (\<exists>e0. e = WithMessage e0 (''failed to download page '' @ Itoa i)))"
        by (intro exI[of _ "int (length fetched)"]) simp
      from a lt at' ok' cause Inl show ?thesis
        by (intro exI[of _ "map fetched_ok fetched"]) auto
    next
      assume "\<exists>u e0. GetURL env issue (int (length fetched)) = Inr u \<and>
              fetches w' = fetches w @ map fetched_ok fetched @ [(u, Inl e0)] \<and>
              e = WithMessage e0
                    (''failed to download page '' @ Itoa (int (length fetched)))"
      then obtain u e0 where u: "GetURL env issue (int (length fetched)) = Inr u"
        and f: "fetches w' = fetches w @ map fetched_ok fetched @ [(u, Inl e0)]"
        and e: "e = WithMessage e0 (''failed to download page '' @ Itoa (int (length fetched)))"
        by blast
      let ?attempts = "map fetched_ok fetched @ [(u, Inl e0)]"
      have at'': "\<forall>k < length ?attempts. GetURL env issue (int k) = Inr (fst (?attempts ! k))"
      proof (intro allI impI)
        fix k assume "k < length ?attempts"
        then consider "k < length fetched" | "k = length fetched" by fastforce
        then show "GetURL env issue (int k) = Inr (fst (?attempts ! k))"
        proof cases
          case 1
          with at show ?thesis by (simp add: nth_append fetched_ok_def)
        next
          case 2
          with u show ?thesis by (simp add: nth_append)
        qed
      qed
      have ok'': "\<forall>k. Suc k < length ?attempts \<longrightarrow> (\<exists>p. snd (?attempts ! k) = Inr p)"
        by (simp add: nth_append fetched_ok_def)
      from lt e have cause: "\<exists>i. 0 \<le> i \<and> i < PageCount issue \<and>
                 (GetURL env issue i = Inl e \<or>
                  (\<exists>e0. e = WithMessage e0 (''failed to download page '' @ Itoa i)))"
        by (intro exI[of _ "int (length fetched)"]) simp
      from f lt at'' ok'' cause Inl show ?thesis
        by (intro exI[of _ ?attempts]) auto
    qed
  qed
qed

text \<open>
  C6 as stated fails: the fetching stops at the first failure, so fewer than
  \<open>PageCount\<close> fetches are attempted when a page fails. Here the issue has three pages
  and the first fetch is refused: one fetch is attempted.
\<close>

theorem fetching_stops_at_first_failure:
  "PageCount sample_issue = 3 \<and>
   fst (downloadAllPages offline_env Background sample_issue empty_world) =
     Inl (WithMessage (New ''connection refused'') ''failed to download page 0'') \<and>
   fetches (snd (downloadAllPages offline_env Background sample_issue empty_world)) =
     [(''u/0'', Inl (New ''connection refused''))]"
  by (simp add: downloadAllPages_def scenario_defs primitive_defs)

text \<open>
  C6, amended. For an issue whose metadata was fetched: the page fetches attempted are
  at most \<open>PageCount\<close>, one per page index \<open>0, 1, ...\<close> in order, and every attempt but
  the last succeeded. If the download returns pages, all \<open>PageCount\<close> URL derivations
  and fetches succeeded, the pages are all the fetched pages (rotated), and \<open>save\<close> is
  called with exactly these. If it returns an error (so whenever a fetch or a URL
  derivation fails), the issue ends with that error wrapped, \<open>save\<close> is not called, and
  the file system and its history are as they were: nothing is persisted.
\<close>

theorem downloadAllPages_attempts:
  assumes meta: "GetIssue env (metadata_start magazine metadata w) session
      (Magazine.ID magazine) (IssueMetadata.ID metadata) = Inr issue"
    and run: "downloadAllPages env ctx issue (pages_start env session magazine metadata w)
      = (r, w2)"
  shows "\<exists>attempts.
           fetches w2 = fetches w @ attempts \<and>
           int (length attempts) \<le> max 0 (PageCount issue) \<and>
           (\<forall>k < length attempts. GetURL env issue (int k) = Inr (fst (attempts ! k))) \<and>
           (\<forall>k. Suc k < length attempts \<longrightarrow> (\<exists>p. snd (attempts ! k) = Inr p)) \<and>
           (\<forall>ps. r = Inr ps \<longrightarrow>
              (\<exists>fetched. attempts = map fetched_ok fetched \<and> ps = rotate1 (map snd fetched)) \<and>
              int (length attempts) = max 0 (PageCount issue) \<and>
              int (length ps) = max 0 (PageCount issue) \<and>
              (\<forall>i. 0 \<le> i \<and> i < PageCount issue \<longrightarrow> (\<exists>u. GetURL env issue i = Inr u)) \<and>
              downloadIssue env ctx session magazine metadata path w =
                save env session ps (Password issue) path
                  (entry_Info magazine metadata ''saving issue'' w2)) \<and>
           (\<forall>e. r = Inl e \<longrightarrow>
              downloadIssue env ctx session magazine metadata path w =
                (Some (WithMessage e (''failed to download '' @ Magazine.Title magazine @ '' ''
                         @ IssueMetadata.Title metadata)), w2) \<and>
              files w2 = files w \<and> history w2 = history w)"
proof -
  let ?w1 = "pages_start env session magazine metadata w"
  note start = pages_start_frame[of env session magazine metadata w]
  from downloadAllPages_trace[OF run]
  have frame: "files w2 = files w" "history w2 = history w"
    using start by auto
  have saving: "downloadIssue env ctx session magazine metadata path w =
        save env session ps (Password issue) path
          (entry_Info magazine metadata ''saving issue'' w2)" if "r = Inr ps" for ps
    using downloadIssue_saving[OF meta] run that by simp
  have failing: "downloadIssue env ctx session magazine metadata path w =
        (Some (WithMessage e (''failed to download '' @ Magazine.Title magazine @ '' ''
                 @ IssueMetadata.Title metadata)), w2)" if "r = Inl e" for e
    using downloadIssue_pages_failed[OF meta] run that by simp
  from attempts_of_run[OF run] obtain attempts where
    a: "fetches w2 = fetches ?w1 @ attempts"
       "int (length attempts) \<le> max 0 (PageCount issue)"
       "\<forall>k < length attempts. GetURL env issue (int k) = Inr (fst (attempts ! k))"
       "\<forall>k. Suc k < length attempts \<longrightarrow> (\<exists>p. snd (attempts ! k) = Inr p)"
       "\<forall>ps. r = Inr ps \<longrightarrow>
              (\<exists>fetched. attempts = map fetched_ok fetched \<and> ps = rotate1 (map snd fetched)) \<and>
              int (length attempts) = max 0 (PageCount issue) \<and>
              int (length ps) = max 0 (PageCount issue) \<and>
              (\<forall>i. 0 \<le> i \<and> i < PageCount issue \<longrightarrow> (\<exists>u. GetURL env issue i = Inr u))"
    by blast
  from a(1) start have f: "fetches w2 = fetches w @ attempts" by simp
  from f a(2-5) saving failing frame show ?thesis
    by (intro exI[of _ attempts]) blast
qed

theorem downloadAllPages_attempts_witness:
  "GetIssue sample_env (metadata_start sample_magazine sample_metadata empty_world)
     sample_session (Magazine.ID sample_magazine) (IssueMetadata.ID sample_metadata)
     = Inr sample_issue \<and>
   fst (downloadAllPages sample_env Background sample_issue
          (pages_start sample_env sample_session sample_magazine sample_metadata empty_world))
     = Inr [Page ''u/1'', Page ''u/2'', Page ''u/0''] \<and>
   (\<exists>attempts.
      fetches (snd (downloadAllPages sample_env Background sample_issue
          (pages_start sample_env sample_session sample_magazine sample_metadata empty_world)))
        = fetches empty_world @ attempts \<and>
      int (length attempts) = max 0 (PageCount sample_issue)) \<and>
   GetIssue offline_env (metadata_start sample_magazine sample_metadata empty_world)
     sample_session (Magazine.ID sample_magazine) (IssueMetadata.ID sample_metadata)
     = Inr sample_issue \<and>
   fst (downloadAllPages offline_env Background sample_issue
          (pages_start offline_env sample_session sample_magazine sample_metadata empty_world))
     = Inl (WithMessage (New ''connection refused'') ''failed to download page 0'') \<and>
   fst (downloadIssue offline_env Background sample_session sample_magazine sample_metadata
          ''Weekly/Sample.pdf'' empty_world)
     = Some (WithMessage (WithMessage (New ''connection refused'') ''failed to download page 0'')
               ''failed to download Weekly Sample'') \<and>
   files (snd (downloadIssue offline_env Background sample_session sample_magazine
                 sample_metadata ''Weekly/Sample.pdf'' empty_world)) = files empty_world"
proof -
  let ?ok = "downloadAllPages sample_env Background sample_issue
          (pages_start sample_env sample_session sample_magazine sample_metadata empty_world)"
  let ?off = "downloadAllPages offline_env Background sample_issue
          (pages_start offline_env sample_session sample_magazine sample_metadata empty_world)"
  have meta1: "GetIssue sample_env (metadata_start sample_magazine sample_metadata empty_world)
     sample_session (Magazine.ID sample_magazine) (IssueMetadata.ID sample_metadata)
     = Inr sample_issue"
    by (simp add: sample_env_def)
  have meta2: "GetIssue offline_env (metadata_start sample_magazine sample_metadata empty_world)
     sample_session (Magazine.ID sample_magazine) (IssueMetadata.ID sample_metadata)
     = Inr sample_issue"
    by (simp add: offline_env_def sample_env_def)
  have r1: "fst ?ok = Inr [Page ''u/1'', Page ''u/2'', Page ''u/0'']"
    by (simp add: downloadAllPages_def issue_stage_defs scenario_defs primitive_defs)
  have r2: "fst ?off = Inl (WithMessage (New ''connection refused'') ''failed to download page 0'')"
    by (simp add: downloadAllPages_def issue_stage_defs scenario_defs primitive_defs)
  have run1: "?ok = (Inr [Page ''u/1'', Page ''u/2'', Page ''u/0''], snd ?ok)"
    using r1 by (simp add: prod_eq_iff)
  have run2: "?off = (Inl (WithMessage (New ''connection refused'') ''failed to download page 0''),
      snd ?off)"
    using r2 by (simp add: prod_eq_iff)
  from downloadAllPages_attempts[OF meta1 run1, of "''Weekly/Sample.pdf''"]
  have a1: "\<exists>attempts. fetches (snd ?ok) = fetches empty_world @ attempts \<and>
      int (length attempts) = max 0 (PageCount sample_issue)"
    by blast
  from downloadAllPages_attempts[OF meta2 run2, of "''Weekly/Sample.pdf''"]
  have a2: "downloadIssue offline_env Background sample_session sample_magazine sample_metadata
          ''Weekly/Sample.pdf'' empty_world =
      (Some (WithMessage (WithMessage (New ''connection refused'') ''failed to download page 0'')
          (''failed to download '' @ Magazine.Title sample_magazine @ '' '' @
             IssueMetadata.Title sample_metadata)), snd ?off) \<and>
      files (snd ?off) = files empty_world"
    by blast
  then have a3: "fst (downloadIssue offline_env Background sample_session sample_magazine
      sample_metadata ''Weekly/Sample.pdf'' empty_world)
     = Some (WithMessage (WithMessage (New ''connection refused'') ''failed to download page 0'')
               ''failed to download Weekly Sample'')"
    and a4: "files (snd (downloadIssue offline_env Background sample_session sample_magazine
                 sample_metadata ''Weekly/Sample.pdf'' empty_world)) = files empty_world"
    by (simp_all add: sample_magazine_def sample_metadata_def)
  from meta1 meta2 r1 r2 a1 a3 a4 show ?thesis by blast
qed

section \<open>The batch: reporting and isolation of failures\<close>
















end
